theory Spec2Isabelle
  imports Complex_Main "HOL-Library.Product_Lexorder"
begin

section \<open>Solar panel optimizer: orientation, sun position, power and aggregation\<close>

text \<open>
  The repository has two entry points that duplicate the same formulas: the standalone
  script \<^verbatim>\<open>solar_optimizer_excel.py\<close> and the dashboard
  \<^verbatim>\<open>solar_optimizer_app.py\<close>. Both are embedded here, each function under the
  name it has in its file; where the two files use one name for two functions, the
  script's copy carries the suffix \<open>_script\<close>.

  Python floats are doubles. They are modelled as real numbers, without NaN, infinity
  or signed zero, and the rounding of double arithmetic is a parameter of the model (see
  the subsection on double arithmetic). Every place where the Python raises is a branch
  of the model that returns an error value.
\<close>

subsection \<open>Errors raised by the Python runtime\<close>

datatype error = ValueError | IndexError | ZeroDivisionError

subsection \<open>Orientation optimizer\<close>

text \<open>
  \<^verbatim>\<open>calculate_optimal_angles(latitude, longitude)\<close> of the script (lines 54--100):
  returns the pair \<open>(optimal_azimuth, optimal_tilt)\<close>. The second parameter is never
  read.
\<close>

definition calculate_optimal_angles_script :: "real \<Rightarrow> real \<Rightarrow> real \<times> real" where
  "calculate_optimal_angles_script latitude longitude =
     (let optimal_azimuth = (if latitude \<ge> 0 then 180 else 0);
          abs_latitude = \<bar>latitude\<bar>;
          optimal_tilt =
            (if abs_latitude < 25 then abs_latitude * 0.87
             else if abs_latitude < 50 then abs_latitude
             else abs_latitude * 0.9)
      in (optimal_azimuth, optimal_tilt))"

text \<open>
  \<^verbatim>\<open>calculate_optimal_angles(latitude)\<close> of the dashboard (lines 437--460): returns
  \<open>(optimal_azimuth, optimal_tilt, hemisphere, direction, zone)\<close>.
\<close>

definition calculate_optimal_angles ::
  "real \<Rightarrow> real \<times> real \<times> string \<times> string \<times> string" where
  "calculate_optimal_angles latitude =
     (let (optimal_azimuth, hemisphere, direction) =
            (if latitude \<ge> 0 then (180, ''Northern'', ''South'')
             else (0, ''Southern'', ''North''));
          abs_latitude = \<bar>latitude\<bar>;
          (optimal_tilt, zone) =
            (if abs_latitude < 25 then (abs_latitude * 0.87, ''Tropical'')
             else if abs_latitude < 50 then (abs_latitude, ''Temperate'')
             else (abs_latitude * 0.9, ''High Latitude''))
      in (optimal_azimuth, optimal_tilt, hemisphere, direction, zone))"

text \<open>\<^verbatim>\<open>calculate_temperature_coefficient(latitude)\<close> of the dashboard (lines 462--483).\<close>

definition calculate_temperature_coefficient :: "real \<Rightarrow> real" where
  "calculate_temperature_coefficient latitude =
     (let abs_latitude = \<bar>latitude\<bar>
      in if abs_latitude < 15 then - 0.45
         else if abs_latitude < 30 then - 0.42
         else if abs_latitude < 45 then - 0.40
         else if abs_latitude < 60 then - 0.38
         else - 0.35)"

subsection \<open>Double arithmetic\<close>

text \<open>
  The interpreter evaluates every expression in doubles. The double it obtains for an
  expression whose exact value is \<open>x\<close> is written \<open>fl x\<close>, where the rounding \<open>fl\<close>
  is a parameter of the functions that compute the sun position and the power. The
  rounding is written out at the two expressions whose value decides whether a library
  call raises: the argument of \<^verbatim>\<open>math.asin\<close> in the elevation and the cosine of
  the angle of incidence before it is clamped. Everywhere else the arithmetic is that of
  the reals. \<open>exact\<close> is arithmetic without rounding.
\<close>

type_synonym rounding = "real \<Rightarrow> real"

definition exact :: rounding where
  "exact x = x"

subsection \<open>Python library functions used by the power model\<close>

text \<open>\<^verbatim>\<open>math.radians\<close> and \<^verbatim>\<open>math.degrees\<close>.\<close>

definition radians :: "real \<Rightarrow> real" where
  "radians x = x * pi / 180"

definition degrees :: "real \<Rightarrow> real" where
  "degrees x = x * 180 / pi"

text \<open>
  \<^verbatim>\<open>math.asin\<close> and \<^verbatim>\<open>math.acos\<close> raise \<^verbatim>\<open>ValueError\<close> (math domain error) on an
  argument outside \<open>[-1, 1]\<close>.
\<close>

definition py_asin :: "real \<Rightarrow> error + real" where
  "py_asin x = (if - 1 \<le> x \<and> x \<le> 1 then Inr (arcsin x) else Inl ValueError)"

definition py_acos :: "real \<Rightarrow> error + real" where
  "py_acos x = (if - 1 \<le> x \<and> x \<le> 1 then Inr (arccos x) else Inl ValueError)"

text \<open>
  \<^verbatim>\<open>math.atan2(y, x)\<close>: the angle of the point \<open>(x, y)\<close> in \<open>(-\<pi>, \<pi>]\<close>; it is
  defined everywhere, with \<open>atan2(0, 0) = 0\<close>.
\<close>

definition py_atan2 :: "real \<Rightarrow> real \<Rightarrow> real" where
  "py_atan2 y x =
     (if x > 0 then arctan (y / x)
      else if x < 0 then (if y \<ge> 0 then arctan (y / x) + pi else arctan (y / x) - pi)
      else if y > 0 then pi / 2
      else if y < 0 then - pi / 2
      else 0)"

text \<open>
  A \<^verbatim>\<open>datetime\<close> at minute resolution, and the \<^verbatim>\<open>date\<close> it belongs to. Dates are
  compared as Python compares them: by year, then month, then day.
\<close>

record timestamp =
  year :: int
  month :: int
  day :: int
  hour :: int
  minute :: int

type_synonym date = "int \<times> int \<times> int"

definition date_of :: "timestamp \<Rightarrow> date" where
  "date_of ts = (year ts, month ts, day ts)"

text \<open>
  \<^verbatim>\<open>timestamp.timetuple().tm_yday\<close>: the days of the months before this one, plus the
  day of the month.
\<close>

definition is_leap :: "int \<Rightarrow> bool" where
  "is_leap y = (y mod 4 = 0 \<and> (y mod 100 \<noteq> 0 \<or> y mod 400 = 0))"

definition days_in_month :: "int \<Rightarrow> int list" where
  "days_in_month y =
     [31, if is_leap y then 29 else 28, 31, 30, 31, 30, 31, 31, 30, 31, 30, 31]"

definition tm_yday :: "timestamp \<Rightarrow> int" where
  "tm_yday ts = sum_list (take (nat (month ts - 1)) (days_in_month (year ts))) + day ts"

subsection \<open>Sun position\<close>

text \<open>
  Both power functions start with the same lines (script 277--305, dashboard 514--536).
  The local variables \<^verbatim>\<open>declination\<close>, \<^verbatim>\<open>hour_angle\<close>, \<^verbatim>\<open>elevation\<close> and
  \<^verbatim>\<open>solar_azimuth\<close> are given here as functions of the latitude and the timestamp.
  \<open>asin_argument\<close> is the exact value of the expression that is passed to
  \<^verbatim>\<open>math.asin\<close> (script 290--292, dashboard 521--523); the code passes the double
  it computes for it, \<open>fl (asin_argument lat ts)\<close>, and does not clamp it.
\<close>

definition declination :: "timestamp \<Rightarrow> real" where
  "declination ts =
     (let day_of_year = tm_yday ts
      in 23.45 * sin (radians ((284 + real_of_int day_of_year) * 360 / 365)))"

definition hour_angle :: "timestamp \<Rightarrow> real" where
  "hour_angle ts =
     (let hour_frac = real_of_int (hour ts) + real_of_int (minute ts) / 60
      in (hour_frac - 12) * 15)"

definition asin_argument :: "real \<Rightarrow> timestamp \<Rightarrow> real" where
  "asin_argument lat ts =
     sin (radians (declination ts)) * sin (radians lat) +
     cos (radians (declination ts)) * cos (radians lat) *
     cos (radians (hour_angle ts))"

definition elevation :: "rounding \<Rightarrow> real \<Rightarrow> timestamp \<Rightarrow> error + real" where
  "elevation fl lat ts =
     (case py_asin (fl (asin_argument lat ts)) of
        Inl e \<Rightarrow> Inl e
      | Inr a \<Rightarrow> Inr (degrees a))"

definition solar_azimuth :: "real \<Rightarrow> timestamp \<Rightarrow> real" where
  "solar_azimuth lat ts =
     (let az =
            degrees (py_atan2
              (- sin (radians (hour_angle ts)))
              (tan (radians (declination ts)) * cos (radians lat) -
               sin (radians lat) * cos (radians (hour_angle ts))))
      in if az < 0 then az + 360 else az)"

subsection \<open>Irradiance-to-power model\<close>

text \<open>\<^verbatim>\<open>calculate_angle_of_incidence\<close> of the script (lines 340--356).\<close>

definition calculate_angle_of_incidence ::
  "rounding \<Rightarrow> real \<Rightarrow> real \<Rightarrow> real \<Rightarrow> real \<Rightarrow> error + real" where
  "calculate_angle_of_incidence fl sun_azimuth sun_elevation panel_azimuth panel_tilt =
     (let sa = radians sun_azimuth;
          se = radians sun_elevation;
          pa = radians panel_azimuth;
          pt = radians panel_tilt;
          cos_incidence = fl (sin se * cos pt + cos se * sin pt * cos (sa - pa));
          cos_incidence = max (- 1) (min 1 cos_incidence)
      in case py_acos cos_incidence of
           Inl e \<Rightarrow> Inl e
         | Inr a \<Rightarrow> Inr (degrees a))"

text \<open>
  \<^verbatim>\<open>calculate_power\<close> of the script (lines 241--338). The parameter \<^verbatim>\<open>lon\<close> is
  never read. The temperature coefficient is the constant \<open>-0.004\<close> and the result
  carries the factor \<open>0.95\<close>.
\<close>

definition calculate_power ::
  "rounding \<Rightarrow> real \<Rightarrow> real \<Rightarrow> real \<Rightarrow> real \<Rightarrow> real \<Rightarrow> real \<Rightarrow> real \<Rightarrow> timestamp \<Rightarrow> real
     \<Rightarrow> error + real" where
  "calculate_power fl lat lon azimuth tilt direct_normal diffuse shortwave ts temperature =
     (case elevation fl lat ts of
        Inl e \<Rightarrow> Inl e
      | Inr elev \<Rightarrow>
          if elev \<le> 0 then Inr 0
          else
            (case calculate_angle_of_incidence fl (solar_azimuth lat ts) elev azimuth tilt of
               Inl e \<Rightarrow> Inl e
             | Inr angle_of_incidence \<Rightarrow>
                 (let cosine_factor = max 0 (cos (radians angle_of_incidence));
                      total_radiation =
                        direct_normal * cosine_factor +
                        diffuse * (1 + cos (radians tilt)) / 2 +
                        shortwave * 0.2 * (1 - cos (radians tilt)) / 2;
                      temp_effect = 1 + (temperature - 25) * (- 0.004);
                      power = total_radiation * temp_effect * 0.95
                  in Inr (max 0 power))))"

text \<open>
  \<^verbatim>\<open>calculate_solar_power\<close> of the dashboard (lines 510--564). The angle of incidence
  is computed in line; the temperature coefficient is a parameter and the result is not
  scaled.
\<close>

definition calculate_solar_power ::
  "rounding \<Rightarrow> real \<Rightarrow> real \<Rightarrow> real \<Rightarrow> real \<Rightarrow> real \<Rightarrow> real \<Rightarrow> real \<Rightarrow> timestamp \<Rightarrow> real
     \<Rightarrow> real \<Rightarrow> error + real" where
  "calculate_solar_power fl lat lon azimuth tilt direct_normal diffuse shortwave ts
       temperature temp_coefficient =
     (case elevation fl lat ts of
        Inl e \<Rightarrow> Inl e
      | Inr elev \<Rightarrow>
          if elev \<le> 0 then Inr 0
          else
            (let sa = radians (solar_azimuth lat ts);
                 se = radians elev;
                 pa = radians azimuth;
                 pt = radians tilt;
                 cos_incidence = fl (sin se * cos pt + cos se * sin pt * cos (sa - pa));
                 cos_incidence = max (- 1) (min 1 cos_incidence)
             in case py_acos cos_incidence of
                  Inl e \<Rightarrow> Inl e
                | Inr a \<Rightarrow>
                    (let angle_of_incidence = degrees a;
                         cosine_factor = max 0 (cos (radians angle_of_incidence));
                         total_radiation =
                           direct_normal * cosine_factor +
                           diffuse * (1 + cos (radians tilt)) / 2 +
                           shortwave * 0.2 * (1 - cos (radians tilt)) / 2;
                         temp_effect = 1 + (temperature - 25) * (temp_coefficient / 100);
                         power = total_radiation * temp_effect
                     in Inr (max 0 power))))"

subsection \<open>Hourly weather data\<close>

text \<open>
  The weather service returns parallel arrays, one entry per hour; any entry may be null.
  One hour of them is a \<open>weather_sample\<close>, with the timestamp already parsed. The four
  functions below are the substitutions both loops make for a null entry (script lines
  150--153, dashboard lines 739--742).
\<close>

record weather_sample =
  time :: timestamp
  temperature_2m :: "real option"
  diffuse_radiation :: "real option"
  direct_normal_irradiance :: "real option"
  shortwave_radiation :: "real option"

definition temp_of :: "weather_sample \<Rightarrow> real" where
  "temp_of w = (case temperature_2m w of None \<Rightarrow> 20 | Some t \<Rightarrow> t)"

definition diffuse_of :: "weather_sample \<Rightarrow> real" where
  "diffuse_of w = (case diffuse_radiation w of None \<Rightarrow> 0 | Some x \<Rightarrow> x)"

definition direct_of :: "weather_sample \<Rightarrow> real" where
  "direct_of w = (case direct_normal_irradiance w of None \<Rightarrow> 0 | Some x \<Rightarrow> x)"

definition sw_of :: "weather_sample \<Rightarrow> real" where
  "sw_of w = (case shortwave_radiation w of None \<Rightarrow> 0 | Some x \<Rightarrow> x)"

subsection \<open>Aggregation in the script\<close>

text \<open>
  \<^verbatim>\<open>daily_energy[date_key] = daily_energy.get(date_key, 0) + power\<close>: the dictionary is
  an association list in insertion order; a key that is present keeps its place.
\<close>

fun dict_add :: "'k \<Rightarrow> real \<Rightarrow> ('k \<times> real) list \<Rightarrow> ('k \<times> real) list" where
  "dict_add k v [] = [(k, 0 + v)]"
| "dict_add k v ((k', v') # kvs) =
     (if k' = k then (k', v' + v) # kvs else (k', v') # dict_add k v kvs)"

text \<open>
  \<^verbatim>\<open>d.get(k)\<close> and \<^verbatim>\<open>d[k]\<close>. The script calls them only with keys taken from
  \<open>d\<close> itself (the key function of \<^verbatim>\<open>max\<close>, and the peak day it returns), so the
  branch for a missing key is never reached.
\<close>

definition dict_get :: "('k \<times> real) list \<Rightarrow> 'k \<Rightarrow> real" where
  "dict_get d k = (case map_of d k of None \<Rightarrow> 0 | Some v \<Rightarrow> v)"

text \<open>
  \<^verbatim>\<open>xs[i] += v\<close> on a Python list: a negative index counts from the end, an index out
  of range raises \<^verbatim>\<open>IndexError\<close>.
\<close>

definition list_add :: "real list \<Rightarrow> int \<Rightarrow> real \<Rightarrow> error + real list" where
  "list_add xs i v =
     (let n = int (length xs);
          j = (if i < 0 then n + i else i)
      in if 0 \<le> j \<and> j < n then Inr (xs[nat j := xs ! nat j + v]) else Inl IndexError)"

text \<open>
  \<^verbatim>\<open>max(iterable, key=f)\<close>: the first element whose key is greatest; \<^verbatim>\<open>ValueError\<close>
  on an empty iterable.
\<close>

fun max_by :: "('a \<Rightarrow> real) \<Rightarrow> 'a \<Rightarrow> 'a list \<Rightarrow> 'a" where
  "max_by key best [] = best"
| "max_by key best (x # xs) = max_by key (if key x > key best then x else best) xs"

definition py_max :: "'a list \<Rightarrow> ('a \<Rightarrow> real) \<Rightarrow> error + 'a" where
  "py_max xs key = (case xs of [] \<Rightarrow> Inl ValueError | x # rest \<Rightarrow> Inr (max_by key x rest))"

text \<open>
  The body of the loop of \<^verbatim>\<open>analyze_last_year_production\<close> (script lines 145--177) on
  the accumulators \<open>(total_energy, monthly_energy, daily_energy)\<close>. The rows collected
  for the spreadsheet do not enter the totals and are left out.
\<close>

type_synonym totals = "real \<times> real list \<times> (date \<times> real) list"

definition analyze_step ::
  "rounding \<Rightarrow> real \<Rightarrow> real \<Rightarrow> real \<Rightarrow> real \<Rightarrow> totals \<Rightarrow> weather_sample
     \<Rightarrow> error + totals" where
  "analyze_step fl latitude longitude azimuth tilt acc w =
     (case acc of (total_energy, monthly_energy, daily_energy) \<Rightarrow>
        (case calculate_power fl latitude longitude azimuth tilt
                (direct_of w) (diffuse_of w) (sw_of w) (time w) (temp_of w) of
           Inl e \<Rightarrow> Inl e
         | Inr pw \<Rightarrow>
             (case list_add monthly_energy (month (time w) - 1) pw of
                Inl e \<Rightarrow> Inl e
              | Inr monthly_energy' \<Rightarrow>
                  Inr (total_energy + pw, monthly_energy',
                       dict_add (date_of (time w)) pw daily_energy))))"

fun analyze_loop ::
  "rounding \<Rightarrow> real \<Rightarrow> real \<Rightarrow> real \<Rightarrow> real \<Rightarrow> weather_sample list \<Rightarrow> totals
     \<Rightarrow> error + totals" where
  "analyze_loop fl latitude longitude azimuth tilt [] acc = Inr acc"
| "analyze_loop fl latitude longitude azimuth tilt (w # ws) acc =
     (case analyze_step fl latitude longitude azimuth tilt acc w of
        Inl e \<Rightarrow> Inl e
      | Inr acc' \<Rightarrow> analyze_loop fl latitude longitude azimuth tilt ws acc')"

text \<open>
  \<^verbatim>\<open>analyze_last_year_production\<close> (script lines 137--181) on the fetched samples:
  returns \<open>(total_energy, monthly_energy, daily_energy, peak_day, peak_energy)\<close>.
\<close>

definition analyze_last_year_production ::
  "rounding \<Rightarrow> real \<Rightarrow> real \<Rightarrow> real \<Rightarrow> real \<Rightarrow> weather_sample list
     \<Rightarrow> error + (real \<times> real list \<times> (date \<times> real) list \<times> date \<times> real)" where
  "analyze_last_year_production fl latitude longitude azimuth tilt samples =
     (case analyze_loop fl latitude longitude azimuth tilt samples (0, replicate 12 0, []) of
        Inl e \<Rightarrow> Inl e
      | Inr (total_energy, monthly_energy, daily_energy) \<Rightarrow>
          (case py_max (map fst daily_energy) (dict_get daily_energy) of
             Inl e \<Rightarrow> Inl e
           | Inr peak_day \<Rightarrow>
               Inr (total_energy, monthly_energy, daily_energy, peak_day,
                    dict_get daily_energy peak_day)))"

subsection \<open>Aggregation in the dashboard\<close>

text \<open>
  The rows of the data frame, with the columns the summaries read: \<^verbatim>\<open>Timestamp\<close>,
  \<^verbatim>\<open>Date\<close> and \<^verbatim>\<open>Energy (Wh)\<close>.
\<close>

record production_row =
  Timestamp :: timestamp
  Date :: date
  Energy_Wh :: real

text \<open>The loop of the dashboard (lines 736--762).\<close>

fun production_rows ::
  "rounding \<Rightarrow> real \<Rightarrow> real \<Rightarrow> real \<Rightarrow> real \<Rightarrow> real \<Rightarrow> real \<Rightarrow> real \<Rightarrow> weather_sample list
     \<Rightarrow> error + production_row list" where
  "production_rows fl latitude longitude azimuth tilt temp_coefficient system_size
       system_efficiency [] = Inr []"
| "production_rows fl latitude longitude azimuth tilt temp_coefficient system_size
       system_efficiency (w # ws) =
     (case calculate_solar_power fl latitude longitude azimuth tilt
             (direct_of w) (diffuse_of w) (sw_of w) (time w) (temp_of w) temp_coefficient of
        Inl e \<Rightarrow> Inl e
      | Inr pw \<Rightarrow>
          (let scaled_power = pw * system_size * (system_efficiency / 100)
           in case production_rows fl latitude longitude azimuth tilt temp_coefficient
                     system_size system_efficiency ws of
                Inl e \<Rightarrow> Inl e
              | Inr rows \<Rightarrow>
                  Inr (\<lparr>Timestamp = time w, Date = date_of (time w),
                        Energy_Wh = scaled_power\<rparr> # rows)))"

text \<open>The analysis of the dashboard (lines 732--765) on the fetched samples.\<close>

definition analyze_historical_data ::
  "rounding \<Rightarrow> real \<Rightarrow> real \<Rightarrow> real \<Rightarrow> real \<Rightarrow> weather_sample list
     \<Rightarrow> error + production_row list" where
  "analyze_historical_data fl latitude longitude system_size system_efficiency samples =
     (case calculate_optimal_angles latitude of
        (azimuth, tilt, hemisphere, direction, zone) \<Rightarrow>
          (let temp_coefficient = calculate_temperature_coefficient latitude
           in production_rows fl latitude longitude azimuth tilt temp_coefficient system_size
                system_efficiency samples))"

text \<open>
  \<^verbatim>\<open>df.groupby(key)[col].sum().reset_index()\<close>: one row per key, keys in increasing
  order, each with the sum of the column over the rows of that key.
\<close>

definition groupby_sum :: "('k::linorder \<times> real) list \<Rightarrow> ('k \<times> real) list" where
  "groupby_sum rows =
     map (\<lambda>k. (k, sum_list (map snd (filter (\<lambda>r. fst r = k) rows))))
       (sort (remdups (map fst rows)))"

text \<open>
  \<^verbatim>\<open>Series.idxmax()\<close> on the default index: the position of the first occurrence of
  the maximum; \<^verbatim>\<open>ValueError\<close> on an empty series.
\<close>

definition idxmax :: "real list \<Rightarrow> error + nat" where
  "idxmax xs =
     (if xs = [] then Inl ValueError else Inr (max_by (\<lambda>i. xs ! i) 0 [1..<length xs]))"

text \<open>
  The summary of the dashboard (lines 798--804 and 846--849). A row of \<open>daily_df\<close> is
  \<open>(Date, Energy (Wh), Energy (kWh))\<close>; a row of \<open>monthly_summary\<close> is
  \<open>(Month, Energy (Wh), Energy (kWh))\<close>, where the month is the monthly period
  \<open>(year, month)\<close> of the date.
\<close>

definition total_energy :: "production_row list \<Rightarrow> real" where
  "total_energy df = sum_list (map Energy_Wh df) / 1000"

definition daily_df :: "production_row list \<Rightarrow> (date \<times> real \<times> real) list" where
  "daily_df df =
     map (\<lambda>(d, wh). (d, wh, wh / 1000)) (groupby_sum (map (\<lambda>r. (Date r, Energy_Wh r)) df))"

definition peak_day :: "production_row list \<Rightarrow> error + (date \<times> real \<times> real)" where
  "peak_day df =
     (case idxmax (map (\<lambda>(d, wh, kwh). kwh) (daily_df df)) of
        Inl e \<Rightarrow> Inl e
      | Inr i \<Rightarrow> Inr (daily_df df ! i))"


subsection \<open>Simple payback\<close>

text \<open>
  A Python float that may be \<^verbatim>\<open>float('inf')\<close>, and true division, which raises
  \<^verbatim>\<open>ZeroDivisionError\<close> on a zero divisor.
\<close>

datatype pyfloat = Finite real | Infinity

definition py_truediv :: "real \<Rightarrow> real \<Rightarrow> error + real" where
  "py_truediv a b = (if b = 0 then Inl ZeroDivisionError else Inr (a / b))"

text \<open>
  \<^verbatim>\<open>payback_years\<close> (dashboard lines 875--886), from the system size, the annual
  production and the electricity rate.
\<close>

definition payback_years :: "real \<Rightarrow> real \<Rightarrow> real \<Rightarrow> error + pyfloat" where
  "payback_years system_size annual_production electricity_rate =
     (let annual_savings = annual_production * electricity_rate;
          cost_per_kw = 1000;
          system_cost = system_size * cost_per_kw
      in if annual_savings > 0
         then (case py_truediv system_cost annual_savings of
                 Inl e \<Rightarrow> Inl e
               | Inr q \<Rightarrow> Inr (Finite q))
         else Inr Infinity)"

text \<open>
  The cell of the savings table (line 912): the years with one decimal when
  \<^verbatim>\<open>payback_years < 100\<close>, else the text \<^verbatim>\<open>N/A\<close>. The number shown is kept
  unrounded.
\<close>

datatype payback_cell = Years real | NotApplicable

definition payback_cell :: "pyfloat \<Rightarrow> payback_cell" where
  "payback_cell p =
     (case p of
        Finite y \<Rightarrow> if y < 100 then Years y else NotApplicable
      | Infinity \<Rightarrow> NotApplicable)"

subsection \<open>Well-formed series\<close>

text \<open>
  A \<^verbatim>\<open>datetime\<close> has its month in 1..12; a production series is in chronological
  order.
\<close>

definition valid_months :: "weather_sample list \<Rightarrow> bool" where
  "valid_months samples = list_all (\<lambda>w. 1 \<le> month (time w) \<and> month (time w) \<le> 12) samples"

definition chronological :: "weather_sample list \<Rightarrow> bool" where
  "chronological samples = sorted (map (\<lambda>w. date_of (time w)) samples)"

text \<open>
  The double computed for the argument of \<^verbatim>\<open>math.asin\<close> lies in the domain
  \<open>[-1, 1]\<close>: at one timestamp, and at every sample of a series.
\<close>

definition asin_in_domain :: "rounding \<Rightarrow> real \<Rightarrow> timestamp \<Rightarrow> bool" where
  "asin_in_domain fl lat ts =
     (- 1 \<le> fl (asin_argument lat ts) \<and> fl (asin_argument lat ts) \<le> 1)"

definition all_in_domain :: "rounding \<Rightarrow> real \<Rightarrow> weather_sample list \<Rightarrow> bool" where
  "all_in_domain fl lat samples = list_all (\<lambda>w. asin_in_domain fl lat (time w)) samples"

subsection \<open>Concrete inputs\<close>

text \<open>
  Day 81 of the year (21 March in a leap year, 22 March otherwise) makes the declination
  formula vanish; at the equator the sun is then at the nadir at midnight and at the
  zenith at noon.
\<close>

definition equinox_midnight :: timestamp where
  "equinox_midnight = \<lparr>year = 2025, month = 3, day = 22, hour = 0, minute = 0\<rparr>"

definition equinox_noon :: timestamp where
  "equinox_noon = \<lparr>year = 2025, month = 3, day = 22, hour = 12, minute = 0\<rparr>"

definition noon_2024 :: timestamp where
  "noon_2024 = \<lparr>year = 2024, month = 3, day = 21, hour = 12, minute = 0\<rparr>"

definition clear_hour :: "timestamp \<Rightarrow> weather_sample" where
  "clear_hour ts =
     \<lparr>time = ts, temperature_2m = Some 25, diffuse_radiation = Some 0,
      direct_normal_irradiance = Some 1000, shortwave_radiation = None\<rparr>"

definition two_noons :: "weather_sample list" where
  "two_noons = [clear_hour noon_2024, clear_hour equinox_noon]"

definition hot_hour :: "timestamp \<Rightarrow> weather_sample" where
  "hot_hour ts =
     \<lparr>time = ts, temperature_2m = Some 35, diffuse_radiation = Some 0,
      direct_normal_irradiance = Some 1000, shortwave_radiation = None\<rparr>"

definition two_hot_noons :: "weather_sample list" where
  "two_hot_noons = [hot_hour noon_2024, hot_hour equinox_noon]"

text \<open>
  At latitude \<open>-11.403095\<close> on 20 October 2025 (day 293) at noon the sun is within a
  millionth of a degree of the zenith. The exact argument of \<^verbatim>\<open>math.asin\<close> is at
  most 1; the double the interpreter computes for it is \<open>1.0000000000000002\<close>.
  \<open>doubles_oct20\<close> is the exact arithmetic with this one rounding.
\<close>

definition oct20_noon :: timestamp where
  "oct20_noon = \<lparr>year = 2025, month = 10, day = 20, hour = 12, minute = 0\<rparr>"

definition doubles_oct20 :: rounding where
  "doubles_oct20 x =
     (if x = asin_argument (- 11.403095) oct20_noon then 1.0000000000000002 else x)"

definition two_rows :: "production_row list" where
  "two_rows =
     [\<lparr>Timestamp = noon_2024, Date = (2024, 3, 21), Energy_Wh = 1000\<rparr>,
      \<lparr>Timestamp = equinox_noon, Date = (2025, 3, 22), Energy_Wh = 1000\<rparr>]"

section \<open>Verification\<close>

subsection \<open>When the sun position and the angle of incidence are defined\<close>

lemma asin_arg_bounds:
  fixes a b c :: real
  assumes "\<bar>c\<bar> \<le> 1"
  shows "\<bar>sin a * sin b + cos a * cos b * c\<bar> \<le> 1"
proof -
  have "\<bar>sin a * sin b + cos a * cos b * c\<bar> \<le> \<bar>sin a * sin b\<bar> + \<bar>cos a * cos b * c\<bar>"
    by (rule abs_triangle_ineq)
  also have "\<bar>cos a * cos b * c\<bar> = \<bar>cos a * cos b\<bar> * \<bar>c\<bar>"
    by (simp add: abs_mult)
  also have "\<bar>sin a * sin b\<bar> + \<bar>cos a * cos b\<bar> * \<bar>c\<bar> \<le> \<bar>sin a * sin b\<bar> + \<bar>cos a * cos b\<bar>"
    using assms by (simp add: mult_left_le)
  also have "\<dots> \<le> 1"
  proof -
    have s: "2 * \<bar>sin a * sin b\<bar> \<le> (sin a)\<^sup>2 + (sin b)\<^sup>2"
      using sum_squares_bound [of "\<bar>sin a\<bar>" "\<bar>sin b\<bar>"] by (simp add: abs_mult)
    have c: "2 * \<bar>cos a * cos b\<bar> \<le> (cos a)\<^sup>2 + (cos b)\<^sup>2"
      using sum_squares_bound [of "\<bar>cos a\<bar>" "\<bar>cos b\<bar>"] by (simp add: abs_mult)
    have "(sin a)\<^sup>2 + (cos a)\<^sup>2 = 1" "(sin b)\<^sup>2 + (cos b)\<^sup>2 = 1" by simp_all
    with s c show ?thesis by linarith
  qed
  finally show ?thesis .
qed

lemma asin_argument_range:
  "- 1 \<le> asin_argument lat ts" "asin_argument lat ts \<le> 1"
proof -
  have "\<bar>asin_argument lat ts\<bar> \<le> 1"
    unfolding asin_argument_def by (rule asin_arg_bounds) simp
  then show "- 1 \<le> asin_argument lat ts" "asin_argument lat ts \<le> 1" by linarith+
qed

lemma exact_in_domain: "asin_in_domain exact lat ts"
  by (simp add: asin_in_domain_def exact_def asin_argument_range)

lemma all_in_domain_exact: "all_in_domain exact lat samples"
  by (simp add: all_in_domain_def exact_in_domain list_all_iff)

lemma elevation_value:
  "elevation fl lat ts =
     (if asin_in_domain fl lat ts then Inr (degrees (arcsin (fl (asin_argument lat ts))))
      else Inl ValueError)"
  by (simp add: elevation_def py_asin_def asin_in_domain_def)

lemma elevation_returns:
  assumes "asin_in_domain fl lat ts"
  shows "\<exists>a. elevation fl lat ts = Inr (degrees a) \<and> - (pi / 2) \<le> a \<and> a \<le> pi / 2"
proof -
  let ?x = "fl (asin_argument lat ts)"
  have b: "- 1 \<le> ?x" "?x \<le> 1" using assms by (simp_all add: asin_in_domain_def)
  have "elevation fl lat ts = Inr (degrees (arcsin ?x))"
    using assms by (simp add: elevation_value)
  moreover have "- (pi / 2) \<le> arcsin ?x" "arcsin ?x \<le> pi / 2"
    using arcsin_bounded [OF b] by blast+
  ultimately show ?thesis by blast
qed

lemma degrees_arccos_range:
  assumes "- 1 \<le> c" "c \<le> 1"
  shows "0 \<le> degrees (arccos c)" "degrees (arccos c) \<le> 180"
proof -
  have "0 \<le> arccos c" "arccos c \<le> pi" using assms by (simp_all add: arccos_lbound arccos_ubound)
  then show "0 \<le> degrees (arccos c)" "degrees (arccos c) \<le> 180"
    by (simp_all add: degrees_def field_simps)
qed

lemma clamp_acos:
  "py_acos (max (- 1) (min 1 c)) = Inr (arccos (max (- 1) (min 1 c)))"
  by (simp add: py_acos_def)

lemma aoi_returns:
  "\<exists>a. calculate_angle_of_incidence fl sa se pa pt = Inr a \<and> 0 \<le> a \<and> a \<le> 180"
  unfolding calculate_angle_of_incidence_def Let_def clamp_acos
  using degrees_arccos_range [of "max (- 1) (min 1 c)" for c] by simp

subsection \<open>The two power functions\<close>

lemma power_below_horizon:
  assumes "elevation fl lat ts = Inr e" "e \<le> 0"
  shows "calculate_power fl lat lon az tilt dn df sw ts T = Inr 0"
    and "calculate_solar_power fl lat lon az tilt dn df sw ts T tc = Inr 0"
  using assms by (simp_all add: calculate_power_def calculate_solar_power_def)

lemma power_out_of_domain:
  assumes "\<not> asin_in_domain fl lat ts"
  shows "calculate_power fl lat lon az tilt dn df sw ts T = Inl ValueError"
    and "calculate_solar_power fl lat lon az tilt dn df sw ts T tc = Inl ValueError"
  using assms by (simp_all add: calculate_power_def calculate_solar_power_def elevation_value)

lemma calculate_solar_power_via_incidence:
  "calculate_solar_power fl lat lon az tilt dn df sw ts T tc =
     (case elevation fl lat ts of
        Inl e \<Rightarrow> Inl e
      | Inr elev \<Rightarrow>
          if elev \<le> 0 then Inr 0
          else
            (case calculate_angle_of_incidence fl (solar_azimuth lat ts) elev az tilt of
               Inl e \<Rightarrow> Inl e
             | Inr aoi \<Rightarrow>
                 Inr (max 0 ((dn * max 0 (cos (radians aoi)) +
                        df * (1 + cos (radians tilt)) / 2 +
                        sw * 0.2 * (1 - cos (radians tilt)) / 2) *
                       (1 + (T - 25) * (tc / 100))))))"
  by (simp add: calculate_solar_power_def calculate_angle_of_incidence_def Let_def
      split: sum.splits)

lemma calculate_solar_power_above_horizon:
  assumes "elevation fl lat ts = Inr e" "0 < e"
  shows "\<exists>aoi. calculate_angle_of_incidence fl (solar_azimuth lat ts) e az tilt = Inr aoi \<and>
           calculate_solar_power fl lat lon az tilt dn df sw ts T tc =
             Inr (max 0 ((dn * max 0 (cos (radians aoi)) +
                    df * (1 + cos (radians tilt)) / 2 +
                    sw * 0.2 * (1 - cos (radians tilt)) / 2) *
                   (1 + (T - 25) * (tc / 100))))"
proof -
  obtain aoi where aoi:
    "calculate_angle_of_incidence fl (solar_azimuth lat ts) e az tilt = Inr aoi"
    using aoi_returns by blast
  have ne: "\<not> e \<le> 0" using assms(2) by simp
  show ?thesis
    unfolding calculate_solar_power_via_incidence assms(1) sum.case if_not_P [OF ne] aoi
    by blast
qed

lemma calculate_power_relation:
  "calculate_power fl lat lon az tilt dn df sw ts T =
     (case calculate_solar_power fl lat lon az tilt dn df sw ts T (- 0.4) of
        Inl e \<Rightarrow> Inl e
      | Inr p \<Rightarrow> Inr (0.95 * p))"
proof (cases "elevation fl lat ts")
  case (Inl err)
  then show ?thesis
    by (simp add: calculate_power_def calculate_solar_power_def)
next
  case (Inr e)
  show ?thesis
  proof (cases "e \<le> 0")
    case True
    then show ?thesis using power_below_horizon [OF Inr] by simp
  next
    case False
    obtain aoi where aoi:
      "calculate_angle_of_incidence fl (solar_azimuth lat ts) e az tilt = Inr aoi"
      using aoi_returns by blast
    have m: "max 0 (R * (1 + (T - 25) * (- 0.004)) * 0.95) =
               0.95 * max 0 (R * (1 + (T - 25) * (- 0.4 / 100)))" for R :: real
      by (simp add: max_def zero_le_mult_iff mult_le_0_iff)
    show ?thesis
      unfolding calculate_solar_power_via_incidence calculate_power_def Let_def Inr aoi
        sum.case if_not_P [OF False] m ..
  qed
qed

lemma calculate_solar_power_nonneg:
  assumes "calculate_solar_power fl lat lon az tilt dn df sw ts T tc = Inr p"
  shows "0 \<le> p"
proof (cases "elevation fl lat ts")
  case (Inl err)
  then show ?thesis using assms by (simp add: calculate_solar_power_via_incidence)
next
  case (Inr e)
  show ?thesis
  proof (cases "e \<le> 0")
    case True
    then show ?thesis using assms power_below_horizon(2) [OF Inr True] by simp
  next
    case False
    then have "0 < e" by simp
    from calculate_solar_power_above_horizon [OF Inr this] obtain aoi where
      "calculate_solar_power fl lat lon az tilt dn df sw ts T tc =
             Inr (max 0 ((dn * max 0 (cos (radians aoi)) +
                    df * (1 + cos (radians tilt)) / 2 +
                    sw * 0.2 * (1 - cos (radians tilt)) / 2) *
                   (1 + (T - 25) * (tc / 100))))"
      by blast
    with assms show ?thesis by simp
  qed
qed

lemma calculate_solar_power_returns:
  assumes "asin_in_domain fl lat ts"
  shows "\<exists>p. calculate_solar_power fl lat lon az tilt dn df sw ts T tc = Inr p \<and> 0 \<le> p"
proof -
  obtain a where el: "elevation fl lat ts = Inr (degrees a)"
    using elevation_returns [OF assms] by blast
  obtain aoi where aoi:
    "calculate_angle_of_incidence fl (solar_azimuth lat ts) (degrees a) az tilt = Inr aoi"
    using aoi_returns by blast
  show ?thesis
    by (cases "degrees a \<le> 0") (simp_all add: calculate_solar_power_via_incidence el aoi)
qed

lemma calculate_power_scaled:
  assumes "asin_in_domain fl lat ts"
  shows "\<exists>p. calculate_solar_power fl lat lon az tilt dn df sw ts T (- 0.4) = Inr p \<and> 0 \<le> p \<and>
           calculate_power fl lat lon az tilt dn df sw ts T = Inr (0.95 * p)"
proof -
  obtain p where p: "calculate_solar_power fl lat lon az tilt dn df sw ts T (- 0.4) = Inr p"
    "0 \<le> p"
    using calculate_solar_power_returns [OF assms] by blast
  have "calculate_power fl lat lon az tilt dn df sw ts T = Inr (0.95 * p)"
    unfolding calculate_power_relation p(1) by simp
  with p show ?thesis by blast
qed

lemma calculate_power_returns:
  assumes "asin_in_domain fl lat ts"
  shows "\<exists>p. calculate_power fl lat lon az tilt dn df sw ts T = Inr p \<and> 0 \<le> p"
proof -
  obtain p where p: "0 \<le> p"
    "calculate_power fl lat lon az tilt dn df sw ts T = Inr (0.95 * p)"
    using calculate_power_scaled [OF assms] by blast
  from p(1) have "0 \<le> 0.95 * p" by simp
  with p(2) show ?thesis by blast
qed

subsection \<open>The sun at the equator on day 81\<close>

lemma tm_yday_equinox: "tm_yday equinox_midnight = 81" "tm_yday equinox_noon = 81"
  by (simp_all add: tm_yday_def equinox_midnight_def equinox_noon_def days_in_month_def is_leap_def)

lemma declination_equinox: "declination equinox_midnight = 0" "declination equinox_noon = 0"
  by (simp_all add: declination_def tm_yday_equinox radians_def)

lemma hour_angle_equinox: "hour_angle equinox_midnight = - 180" "hour_angle equinox_noon = 0"
  by (simp_all add: hour_angle_def equinox_midnight_def equinox_noon_def)

lemma asin_argument_equinox:
  "asin_argument 0 equinox_midnight = - 1" "asin_argument 0 equinox_noon = 1"
  by (simp_all add: asin_argument_def declination_equinox hour_angle_equinox radians_def)

lemma elevation_equinox_midnight: "elevation exact 0 equinox_midnight = Inr (- 90)"
  by (simp add: elevation_def asin_argument_equinox exact_def py_asin_def degrees_def)

lemma elevation_equinox_noon: "elevation exact 0 equinox_noon = Inr 90"
  by (simp add: elevation_def asin_argument_equinox exact_def py_asin_def degrees_def)

lemma solar_azimuth_equinox_noon: "solar_azimuth 0 equinox_noon = 0"
  by (simp add: solar_azimuth_def declination_equinox hour_angle_equinox radians_def py_atan2_def degrees_def)

lemma incidence_equinox_noon: "calculate_angle_of_incidence exact 0 90 180 0 = Inr 0"
  by (simp add: calculate_angle_of_incidence_def exact_def radians_def py_acos_def
      degrees_def)

lemma tm_yday_noons: "tm_yday noon_2024 = 81" "tm_yday equinox_noon = 81"
  by (simp_all add: tm_yday_def noon_2024_def equinox_noon_def days_in_month_def is_leap_def)

lemma noon_sun:
  assumes "tm_yday ts = 81" "hour ts = 12" "minute ts = 0"
  shows "elevation exact 0 ts = Inr 90" and "solar_azimuth 0 ts = 0"
proof -
  have d: "declination ts = 0" by (simp add: declination_def assms radians_def)
  have h: "hour_angle ts = 0" by (simp add: hour_angle_def assms)
  show "elevation exact 0 ts = Inr 90"
    by (simp add: elevation_def asin_argument_def exact_def d h radians_def py_asin_def
        degrees_def)
  show "solar_azimuth 0 ts = 0"
    by (simp add: solar_azimuth_def d h radians_def py_atan2_def degrees_def)
qed

lemma noon_power:
  assumes "tm_yday ts = 81" "hour ts = 12" "minute ts = 0"
  shows "calculate_power exact 0 0 180 0 1000 0 0 ts 25 = Inr 950"
    and "calculate_solar_power exact 0 0 180 0 1000 0 0 ts 25 tc = Inr 1000"
    and "calculate_power exact 0 0 180 0 1000 0 0 ts 35 = Inr 912"
    and "calculate_solar_power exact 0 0 180 0 1000 0 0 ts 35 (- 0.45) = Inr 955"
proof -
  note e = noon_sun(1) [OF assms] and a = noon_sun(2) [OF assms]
  show "calculate_power exact 0 0 180 0 1000 0 0 ts 25 = Inr 950"
    by (simp add: calculate_power_def e a incidence_equinox_noon radians_def)
  show "calculate_solar_power exact 0 0 180 0 1000 0 0 ts 25 tc = Inr 1000"
    by (simp add: calculate_solar_power_via_incidence e a incidence_equinox_noon radians_def)
  show "calculate_power exact 0 0 180 0 1000 0 0 ts 35 = Inr 912"
    by (simp add: calculate_power_def e a incidence_equinox_noon radians_def)
  show "calculate_solar_power exact 0 0 180 0 1000 0 0 ts 35 (- 0.45) = Inr 955"
    by (simp add: calculate_solar_power_via_incidence e a incidence_equinox_noon radians_def)
qed

subsection \<open>Claims about the power model\<close>

text \<open>
  C1. Whenever the computed solar elevation is at most 0, both power functions return
  exactly 0, whatever the panel orientation, the irradiance components, the temperature
  and the temperature coefficient are, and whatever the rounding is.
\<close>

theorem power_zero_below_horizon:
  "elevation fl lat ts = Inr e \<Longrightarrow> e \<le> 0 \<Longrightarrow>
     calculate_power fl lat lon az tilt dn df sw ts T = Inr 0 \<and>
     calculate_solar_power fl lat lon az tilt dn df sw ts T tc = Inr 0"
  by (simp add: power_below_horizon)

theorem power_zero_below_horizon_witness:
  "elevation exact 0 equinox_midnight = Inr (- 90) \<and> (- 90 :: real) \<le> 0 \<and>
   calculate_power exact 0 0 180 0 1000 200 800 equinox_midnight 20 = Inr 0 \<and>
   calculate_solar_power exact 0 0 180 0 1000 200 800 equinox_midnight 20 (- 0.45) = Inr 0"
  using power_zero_below_horizon [OF elevation_equinox_midnight,
      of 0 180 0 1000 200 800 20 "- 0.45"]
  by (simp add: elevation_equinox_midnight)

text \<open>
  C2. The power functions return a value, and then one that is at least 0, exactly when
  the double computed for the argument of \<^verbatim>\<open>math.asin\<close> lies in \<open>[-1, 1]\<close>. The
  argument is not clamped, so when rounding carries it outside that interval both
  functions raise \<^verbatim>\<open>ValueError\<close> instead of returning a value: this happens at
  latitude \<open>-11.403095\<close> on 20 October at noon, where the doubles give
  \<open>1.0000000000000002\<close>.
\<close>

theorem power_raises_on_asin_overshoot:
  "(if asin_in_domain fl lat ts
    then (\<exists>p. calculate_power fl lat lon az tilt dn df sw ts T = Inr p \<and> 0 \<le> p) \<and>
         (\<exists>p. calculate_solar_power fl lat lon az tilt dn df sw ts T tc = Inr p \<and> 0 \<le> p)
    else calculate_power fl lat lon az tilt dn df sw ts T = Inl ValueError \<and>
         calculate_solar_power fl lat lon az tilt dn df sw ts T tc = Inl ValueError) \<and>
   calculate_power doubles_oct20 (- 11.403095) lon az tilt dn df sw oct20_noon T =
     Inl ValueError \<and>
   calculate_solar_power doubles_oct20 (- 11.403095) lon az tilt dn df sw oct20_noon T tc =
     Inl ValueError"
proof -
  have "\<not> asin_in_domain doubles_oct20 (- 11.403095) oct20_noon"
    by (simp add: asin_in_domain_def doubles_oct20_def)
  then have
    "calculate_power doubles_oct20 (- 11.403095) lon az tilt dn df sw oct20_noon T =
       Inl ValueError"
    "calculate_solar_power doubles_oct20 (- 11.403095) lon az tilt dn df sw oct20_noon T tc =
       Inl ValueError"
    by (rule power_out_of_domain)+
  moreover have
    "if asin_in_domain fl lat ts
     then (\<exists>p. calculate_power fl lat lon az tilt dn df sw ts T = Inr p \<and> 0 \<le> p) \<and>
          (\<exists>p. calculate_solar_power fl lat lon az tilt dn df sw ts T tc = Inr p \<and> 0 \<le> p)
     else calculate_power fl lat lon az tilt dn df sw ts T = Inl ValueError \<and>
          calculate_solar_power fl lat lon az tilt dn df sw ts T tc = Inl ValueError"
  proof (cases "asin_in_domain fl lat ts")
    case True
    then show ?thesis
      using calculate_power_returns [OF True] calculate_solar_power_returns [OF True]
      by simp
  next
    case False
    then show ?thesis
      using power_out_of_domain [OF False] by simp
  qed
  ultimately show ?thesis by simp
qed

text \<open>
  C3. For every solar elevation, solar azimuth, panel azimuth and panel tilt, and
  whatever rounding the raw cosine has suffered, the angle of incidence is computed
  without an error and lies in \<open>[0, 180]\<close> degrees. The second part is the reason:
  whatever the raw cosine \<open>c\<close> is, also outside \<open>[-1, 1]\<close>, the clamped value is accepted
  by the inverse cosine and gives an angle in that range; the dashboard computes its
  angle by the same clamp in line.
\<close>

theorem incidence_angle_in_range:
  "(\<exists>a. calculate_angle_of_incidence fl sun_azimuth sun_elevation panel_azimuth panel_tilt =
          Inr a \<and> 0 \<le> a \<and> a \<le> 180) \<and>
   (\<exists>r. py_acos (max (- 1) (min 1 c)) = Inr r \<and> 0 \<le> degrees r \<and> degrees r \<le> 180)"
  using aoi_returns clamp_acos degrees_arccos_range [of "max (- 1) (min 1 c)"] by simp

text \<open>
  C7. On identical inputs, with the dashboard's temperature coefficient set to \<open>-0.4\<close>,
  the script's power is exactly 0.95 times the dashboard's power: under every rounding
  the script returns 0.95 times what the dashboard returns and raises when the dashboard
  raises, and in exact arithmetic both return.
\<close>

theorem script_power_is_scaled_dashboard_power:
  "calculate_power fl lat lon az tilt dn df sw ts T =
     (case calculate_solar_power fl lat lon az tilt dn df sw ts T (- 0.4) of
        Inl e \<Rightarrow> Inl e
      | Inr p \<Rightarrow> Inr (0.95 * p)) \<and>
   (\<exists>p. calculate_solar_power exact lat lon az tilt dn df sw ts T (- 0.4) = Inr p \<and>
        calculate_power exact lat lon az tilt dn df sw ts T = Inr (0.95 * p))"
proof -
  obtain p where
    "calculate_solar_power exact lat lon az tilt dn df sw ts T (- 0.4) = Inr p"
    "calculate_power exact lat lon az tilt dn df sw ts T = Inr (0.95 * p)"
    using calculate_power_scaled [OF exact_in_domain, where lat = lat and ts = ts and
        lon = lon and az = az and tilt = tilt and dn = dn and df = df and sw = sw and T = T]
    by blast
  then have "\<exists>p. calculate_solar_power exact lat lon az tilt dn df sw ts T (- 0.4) = Inr p \<and>
        calculate_power exact lat lon az tilt dn df sw ts T = Inr (0.95 * p)"
    by blast
  moreover note calculate_power_relation [of fl lat lon az tilt dn df sw ts T]
  ultimately show ?thesis by (rule conjI [rotated])
qed

subsection \<open>Claims about the orientation optimizer\<close>

text \<open>
  C4. For every latitude \<open>L\<close> in \<open>[-90, 90]\<close> the tilt is in \<open>[0, 90]\<close>, the azimuth is
  exactly 180 when \<open>L \<ge> 0\<close> and exactly 0 when \<open>L < 0\<close>; the script's variant returns
  the same azimuth and tilt whatever longitude it is given.
\<close>

theorem optimal_orientation_range:
  "- 90 \<le> L \<Longrightarrow> L \<le> 90 \<Longrightarrow>
     0 \<le> fst (snd (calculate_optimal_angles L)) \<and>
     fst (snd (calculate_optimal_angles L)) \<le> 90 \<and>
     fst (calculate_optimal_angles L) = (if L \<ge> 0 then 180 else 0) \<and>
     calculate_optimal_angles_script L lon =
       (fst (calculate_optimal_angles L), fst (snd (calculate_optimal_angles L)))"
  by (simp add: calculate_optimal_angles_def calculate_optimal_angles_script_def Let_def)

theorem optimal_orientation_range_witness:
  "(- 90 :: real) \<le> 37.7749 \<and> (37.7749 :: real) \<le> 90 \<and>
   0 \<le> fst (snd (calculate_optimal_angles 37.7749)) \<and>
   fst (snd (calculate_optimal_angles 37.7749)) \<le> 90 \<and>
   fst (calculate_optimal_angles 37.7749) = 180 \<and>
   calculate_optimal_angles_script 37.7749 (- 122.4194) = (180, 37.7749)"
  using optimal_orientation_range [of "37.7749" "- 122.4194"]
  by (simp add: calculate_optimal_angles_def Let_def)

text \<open>
  C5. The tilt is \<open>|L| \<times> 0.87\<close> for \<open>|L| < 25\<close>, exactly \<open>|L|\<close> for
  \<open>25 \<le> |L| < 50\<close> and \<open>|L| \<times> 0.9\<close> for \<open>|L| \<ge> 50\<close>: the boundaries 25 and 50
  belong to the higher band.
\<close>

theorem tilt_bands:
  "fst (snd (calculate_optimal_angles L)) =
     (if \<bar>L\<bar> < 25 then \<bar>L\<bar> * 0.87 else if \<bar>L\<bar> < 50 then \<bar>L\<bar> else \<bar>L\<bar> * 0.9) \<and>
   snd (calculate_optimal_angles_script L lon) =
     (if \<bar>L\<bar> < 25 then \<bar>L\<bar> * 0.87 else if \<bar>L\<bar> < 50 then \<bar>L\<bar> else \<bar>L\<bar> * 0.9) \<and>
   fst (snd (calculate_optimal_angles 25)) = 25 \<and>
   snd (calculate_optimal_angles_script 25 lon) = 25 \<and>
   fst (snd (calculate_optimal_angles 24.999)) = 24.999 * 0.87 \<and>
   snd (calculate_optimal_angles_script 24.999 lon) = 24.999 * 0.87 \<and>
   fst (snd (calculate_optimal_angles 50)) = 50 * 0.9 \<and>
   snd (calculate_optimal_angles_script 50 lon) = 50 * 0.9"
  by (simp add: calculate_optimal_angles_def calculate_optimal_angles_script_def Let_def)

subsection \<open>Claims about the temperature coefficient\<close>

lemma production_rows_Inr:
  assumes "production_rows fl lat lon az tilt tc system_size system_efficiency samples =
             Inr rows"
  shows "list_all2
           (\<lambda>w r. \<exists>p. calculate_solar_power fl lat lon az tilt (direct_of w) (diffuse_of w)
                          (sw_of w) (time w) (temp_of w) tc = Inr p \<and>
                       r = \<lparr>Timestamp = time w, Date = date_of (time w),
                            Energy_Wh = p * system_size * (system_efficiency / 100)\<rparr>)
           samples rows"
  using assms
proof (induction samples arbitrary: rows)
  case Nil
  then show ?case by simp
next
  case (Cons w ws)
  from Cons.prems obtain p rest where
    p: "calculate_solar_power fl lat lon az tilt (direct_of w) (diffuse_of w) (sw_of w)
          (time w) (temp_of w) tc = Inr p" and
    rest: "production_rows fl lat lon az tilt tc system_size system_efficiency ws = Inr rest"
      and
    rows: "rows = \<lparr>Timestamp = time w, Date = date_of (time w),
                   Energy_Wh = p * system_size * (system_efficiency / 100)\<rparr> # rest"
    by (auto simp: Let_def split: sum.splits)
  from Cons.IH [OF rest] p show ?case unfolding rows by simp
qed

lemma production_rows_returns:
  assumes "all_in_domain fl lat samples"
  shows "\<exists>rows. production_rows fl lat lon az tilt tc system_size system_efficiency samples =
                  Inr rows"
  using assms
proof (induction samples)
  case Nil
  then show ?case by simp
next
  case (Cons w ws)
  from Cons.prems have d: "asin_in_domain fl lat (time w)" "all_in_domain fl lat ws"
    by (simp_all add: all_in_domain_def)
  obtain p where "calculate_solar_power fl lat lon az tilt (direct_of w) (diffuse_of w)
      (sw_of w) (time w) (temp_of w) tc = Inr p"
    using calculate_solar_power_returns [OF d(1)] by blast
  moreover obtain rest where
    "production_rows fl lat lon az tilt tc system_size system_efficiency ws = Inr rest"
    using Cons.IH [OF d(2)] by blast
  ultimately show ?case by (simp add: Let_def)
qed

lemma analyze_historical_data_rows:
  "analyze_historical_data fl lat lon system_size system_efficiency samples =
     production_rows fl lat lon (fst (calculate_optimal_angles lat))
       (fst (snd (calculate_optimal_angles lat))) (calculate_temperature_coefficient lat)
       system_size system_efficiency samples"
  by (cases "calculate_optimal_angles lat") (simp add: analyze_historical_data_def Let_def)

text \<open>
  C6, as the claim states it, fails on the script: at the equator, where the
  latitude-derived coefficient is \<open>-0.45\<close>, the script's power at 35 degrees Celsius is
  the one the fixed coefficient \<open>-0.4\<close> gives, not the one the latitude-derived
  coefficient would give.
\<close>

theorem fixed_coefficient_counterexample:
  "calculate_power exact 0 0 180 0 1000 0 0 equinox_noon 35 =
     Inr (0.95 * (1000 * (1 + (35 - 25) * (- 0.4 / 100)))) \<and>
   calculate_power exact 0 0 180 0 1000 0 0 equinox_noon 35 \<noteq>
     Inr (0.95 * (1000 * (1 + (35 - 25) * (calculate_temperature_coefficient 0 / 100))))"
  by (simp add: calculate_power_def elevation_equinox_noon solar_azimuth_equinox_noon
      incidence_equinox_noon radians_def calculate_temperature_coefficient_def)

text \<open>
  C6, amended. The temperature coefficient is the five-band step function of the
  absolute latitude and is always negative. The dashboard computes the power of every
  sample of every series with this latitude-derived coefficient: whenever its analysis
  returns, each row holds the power that \<^verbatim>\<open>calculate_solar_power\<close> gives for that
  sample with that coefficient, scaled by system size and efficiency, and the analysis
  returns whenever the sun position is defined at every sample, as it is in exact
  arithmetic. The coefficient enters that power as the derating factor
  \<open>1 + (T - 25) \<times> (coefficient / 100)\<close>. The script applies the fixed coefficient
  \<open>-0.4\<close> at every latitude.
\<close>

theorem temperature_coefficient_bands:
  "calculate_temperature_coefficient lat =
     (if \<bar>lat\<bar> < 15 then - 0.45 else if \<bar>lat\<bar> < 30 then - 0.42
      else if \<bar>lat\<bar> < 45 then - 0.40 else if \<bar>lat\<bar> < 60 then - 0.38 else - 0.35) \<and>
   calculate_temperature_coefficient lat < 0 \<and>
   (\<forall>rows. analyze_historical_data fl lat lon system_size system_efficiency samples =
             Inr rows \<longrightarrow>
      list_all2
        (\<lambda>w r. \<exists>p. calculate_solar_power fl lat lon (fst (calculate_optimal_angles lat))
                       (fst (snd (calculate_optimal_angles lat)))
                       (direct_of w) (diffuse_of w) (sw_of w) (time w) (temp_of w)
                       (calculate_temperature_coefficient lat) = Inr p \<and>
                    r = \<lparr>Timestamp = time w, Date = date_of (time w),
                         Energy_Wh = p * system_size * (system_efficiency / 100)\<rparr>)
        samples rows) \<and>
   (all_in_domain fl lat samples \<longrightarrow>
      (\<exists>rows. analyze_historical_data fl lat lon system_size system_efficiency samples =
                Inr rows)) \<and>
   (\<exists>rows. analyze_historical_data exact lat lon system_size system_efficiency samples =
             Inr rows) \<and>
   (elevation fl lat ts = Inr e \<and> 0 < e \<longrightarrow>
      (\<exists>aoi. calculate_angle_of_incidence fl (solar_azimuth lat ts) e az tilt = Inr aoi \<and>
         calculate_solar_power fl lat lon az tilt dn df sw ts T tc =
           Inr (max 0 ((dn * max 0 (cos (radians aoi)) +
                  df * (1 + cos (radians tilt)) / 2 +
                  sw * 0.2 * (1 - cos (radians tilt)) / 2) *
                 (1 + (T - 25) * (tc / 100)))))) \<and>
   calculate_power fl lat lon az tilt dn df sw ts T =
     (case calculate_solar_power fl lat lon az tilt dn df sw ts T (- 0.4) of
        Inl e \<Rightarrow> Inl e
      | Inr p \<Rightarrow> Inr (0.95 * p))"
proof (intro conjI allI impI)
  show "calculate_temperature_coefficient lat =
     (if \<bar>lat\<bar> < 15 then - 0.45 else if \<bar>lat\<bar> < 30 then - 0.42
      else if \<bar>lat\<bar> < 45 then - 0.40 else if \<bar>lat\<bar> < 60 then - 0.38 else - 0.35)"
    by (simp add: calculate_temperature_coefficient_def Let_def)
  show "calculate_temperature_coefficient lat < 0"
    by (simp add: calculate_temperature_coefficient_def Let_def)
next
  fix rows
  assume "analyze_historical_data fl lat lon system_size system_efficiency samples = Inr rows"
  then show "list_all2
        (\<lambda>w r. \<exists>p. calculate_solar_power fl lat lon (fst (calculate_optimal_angles lat))
                       (fst (snd (calculate_optimal_angles lat)))
                       (direct_of w) (diffuse_of w) (sw_of w) (time w) (temp_of w)
                       (calculate_temperature_coefficient lat) = Inr p \<and>
                    r = \<lparr>Timestamp = time w, Date = date_of (time w),
                         Energy_Wh = p * system_size * (system_efficiency / 100)\<rparr>)
        samples rows"
    unfolding analyze_historical_data_rows by (rule production_rows_Inr)
next
  assume "all_in_domain fl lat samples"
  then show "\<exists>rows. analyze_historical_data fl lat lon system_size system_efficiency samples =
                Inr rows"
    unfolding analyze_historical_data_rows by (rule production_rows_returns)
next
  show "\<exists>rows. analyze_historical_data exact lat lon system_size system_efficiency samples =
             Inr rows"
    unfolding analyze_historical_data_rows
    by (rule production_rows_returns [OF all_in_domain_exact])
next
  assume "elevation fl lat ts = Inr e \<and> 0 < e"
  then show "\<exists>aoi. calculate_angle_of_incidence fl (solar_azimuth lat ts) e az tilt = Inr aoi \<and>
         calculate_solar_power fl lat lon az tilt dn df sw ts T tc =
           Inr (max 0 ((dn * max 0 (cos (radians aoi)) +
                  df * (1 + cos (radians tilt)) / 2 +
                  sw * 0.2 * (1 - cos (radians tilt)) / 2) *
                 (1 + (T - 25) * (tc / 100))))"
    using calculate_solar_power_above_horizon by blast
next
  show "calculate_power fl lat lon az tilt dn df sw ts T =
     (case calculate_solar_power fl lat lon az tilt dn df sw ts T (- 0.4) of
        Inl e \<Rightarrow> Inl e
      | Inr p \<Rightarrow> Inr (0.95 * p))"
    by (rule calculate_power_relation)
qed

lemma hot_hour_power:
  assumes "tc = - 0.45"
  shows
  "calculate_solar_power exact 0 0 180 0 (direct_of (hot_hour noon_2024))
     (diffuse_of (hot_hour noon_2024)) (sw_of (hot_hour noon_2024))
     (time (hot_hour noon_2024)) (temp_of (hot_hour noon_2024)) tc = Inr 955"
  "calculate_solar_power exact 0 0 180 0 (direct_of (hot_hour equinox_noon))
     (diffuse_of (hot_hour equinox_noon)) (sw_of (hot_hour equinox_noon))
     (time (hot_hour equinox_noon)) (temp_of (hot_hour equinox_noon)) tc = Inr 955"
  using noon_power(4) [OF tm_yday_noons(1)] noon_power(4) [OF tm_yday_noons(2)]
  unfolding assms
  by (simp_all add: hot_hour_def direct_of_def diffuse_of_def sw_of_def temp_of_def
      noon_2024_def equinox_noon_def)

lemma equinox_noon_hot_power:
  assumes "tc = - 0.45"
  shows "calculate_solar_power exact 0 0 180 0 1000 0 0 equinox_noon 35 tc = Inr 955"
  unfolding assms
  by (rule noon_power(4) [OF tm_yday_noons(2)]) (simp_all add: equinox_noon_def)

lemma analyze_two_hot_noons:
  "analyze_historical_data exact 0 0 1 100 two_hot_noons =
     Inr [\<lparr>Timestamp = noon_2024, Date = (2024, 3, 21), Energy_Wh = 955\<rparr>,
          \<lparr>Timestamp = equinox_noon, Date = (2025, 3, 22), Energy_Wh = 955\<rparr>]"
  by (simp add: analyze_historical_data_def calculate_optimal_angles_def
      calculate_temperature_coefficient_def two_hot_noons_def hot_hour_power Let_def)
     (simp add: hot_hour_def noon_2024_def equinox_noon_def date_of_def)

theorem temperature_coefficient_bands_witness:
  "all_in_domain exact 0 two_hot_noons \<and>
   analyze_historical_data exact 0 0 1 100 two_hot_noons =
     Inr [\<lparr>Timestamp = noon_2024, Date = (2024, 3, 21), Energy_Wh = 955\<rparr>,
          \<lparr>Timestamp = equinox_noon, Date = (2025, 3, 22), Energy_Wh = 955\<rparr>] \<and>
   elevation exact 0 equinox_noon = Inr 90 \<and> (0 :: real) < 90 \<and>
   calculate_temperature_coefficient 0 = - 0.45 \<and>
   calculate_solar_power exact 0 0 180 0 1000 0 0 equinox_noon 35
     (calculate_temperature_coefficient 0) = Inr 955"
  using temperature_coefficient_bands [where lat = 0 and fl = exact and lon = 0 and
      system_size = 1 and system_efficiency = 100 and samples = two_hot_noons and
      ts = equinox_noon and e = 90 and az = 180 and tilt = 0 and dn = 1000 and df = 0 and
      sw = 0 and T = 35 and tc = "- 0.45"]
  by (simp add: all_in_domain_exact analyze_two_hot_noons elevation_equinox_noon
      calculate_temperature_coefficient_def equinox_noon_hot_power)

subsection \<open>Claims about the payback period\<close>

lemma payback_years_value:
  "payback_years system_size annual_production electricity_rate =
     Inr (if annual_production * electricity_rate > 0
          then Finite (system_size * 1000 / (annual_production * electricity_rate))
          else Infinity)"
  by (simp add: payback_years_def py_truediv_def Let_def)

text \<open>
  C9. The computation of the payback period always returns (no division by zero); it is
  system cost divided by annual savings when the savings are positive; when the savings
  are zero the table cell reads not-applicable; and the cell never shows infinity: it is
  either not-applicable or a finite number of years below 100.
\<close>

theorem payback_not_applicable_at_zero:
  "\<exists>p. payback_years system_size annual_production electricity_rate = Inr p \<and>
       (annual_production * electricity_rate > 0 \<longrightarrow>
          p = Finite (system_size * 1000 / (annual_production * electricity_rate))) \<and>
       (annual_production * electricity_rate = 0 \<longrightarrow> payback_cell p = NotApplicable) \<and>
       (payback_cell p = NotApplicable \<or>
        (\<exists>y. payback_cell p = Years y \<and> p = Finite y \<and> y < 100))"
  by (simp add: payback_years_value payback_cell_def)

theorem payback_not_applicable_at_zero_witness:
  "(7500 * 0.12 :: real) > 0 \<and>
   payback_years 5 7500 0.12 = Inr (Finite (5000 / 900)) \<and>
   payback_cell (Finite (5000 / 900)) = Years (5000 / 900) \<and>
   (0 * 0.12 :: real) = 0 \<and>
   payback_years 5 0 0.12 = Inr Infinity \<and>
   payback_cell Infinity = NotApplicable"
  using payback_not_applicable_at_zero [of 5 7500 "0.12"]
        payback_not_applicable_at_zero [of 5 0 "0.12"]
  by (simp add: payback_years_value payback_cell_def)

subsection \<open>Conservation of energy by the aggregation\<close>


lemma sum_list_add_at:
  "j < length xs \<Longrightarrow> sum_list (xs[j := xs ! j + v]) = sum_list xs + (v::real)"
  by (induction xs arbitrary: j) (auto split: nat.splits)

lemma list_add_Inr:
  assumes "list_add xs i v = Inr ys"
  shows "sum_list ys = sum_list xs + v" and "length ys = length xs"
  using assms by (auto simp: list_add_def Let_def sum_list_add_at split: if_splits)

lemma list_add_month:
  assumes "1 \<le> m" "m \<le> 12" "length xs = 12"
  shows "\<exists>ys. list_add xs (m - 1) v = Inr ys"
  using assms by (simp add: list_add_def Let_def)

lemma analyze_step_Inr:
  assumes "analyze_step fl lat lon az tilt (t, m, d) w = Inr (t', m', d')"
  shows "\<exists>p. calculate_power fl lat lon az tilt (direct_of w) (diffuse_of w) (sw_of w) (time w)
               (temp_of w) = Inr p \<and>
             t' = t + p \<and> sum_list m' = sum_list m + p \<and> length m' = length m \<and>
             d' = dict_add (date_of (time w)) p d"
  using assms
  by (auto simp: analyze_step_def split: sum.splits dest: list_add_Inr)

lemma analyze_step_returns:
  assumes "1 \<le> month (time w)" "month (time w) \<le> 12" "length m = 12"
    and "asin_in_domain fl lat (time w)"
  shows "\<exists>acc. analyze_step fl lat lon az tilt (t, m, d) w = Inr acc"
proof -
  obtain p where p: "calculate_power fl lat lon az tilt (direct_of w) (diffuse_of w) (sw_of w)
      (time w) (temp_of w) = Inr p"
    using calculate_power_returns [OF assms(4)] by blast
  obtain ys where "list_add m (month (time w) - 1) p = Inr ys"
    using list_add_month [OF assms(1,2,3)] by blast
  with p show ?thesis by (simp add: analyze_step_def)
qed


lemma analyze_loop_returns:
  assumes "valid_months samples" "all_in_domain fl lat samples" "length m = 12"
  shows "\<exists>acc. analyze_loop fl lat lon az tilt samples (t, m, d) = Inr acc"
  using assms
proof (induction samples arbitrary: t m d)
  case Nil
  then show ?case by simp
next
  case (Cons w ws)
  from Cons.prems have v: "1 \<le> month (time w)" "month (time w) \<le> 12" "valid_months ws"
    by (simp_all add: valid_months_def)
  from Cons.prems have dm: "asin_in_domain fl lat (time w)" "all_in_domain fl lat ws"
    by (simp_all add: all_in_domain_def)
  obtain acc where "analyze_step fl lat lon az tilt (t, m, d) w = Inr acc"
    using analyze_step_returns [OF v(1,2) Cons.prems(3) dm(1)] by blast
  then obtain t1 m1 d1 where
    step: "analyze_step fl lat lon az tilt (t, m, d) w = Inr (t1, m1, d1)"
    by (cases acc) simp
  have "length m1 = 12" using analyze_step_Inr [OF step] Cons.prems(3) by auto
  from Cons.IH [OF v(3) dm(2) this] show ?case by (simp add: step)
qed







subsection \<open>Evaluation at the concrete inputs\<close>

lemma clear_hour_power:
  "calculate_power exact 0 0 180 0 (direct_of (clear_hour noon_2024))
     (diffuse_of (clear_hour noon_2024)) (sw_of (clear_hour noon_2024))
     (time (clear_hour noon_2024)) (temp_of (clear_hour noon_2024)) = Inr 950"
  "calculate_power exact 0 0 180 0 (direct_of (clear_hour equinox_noon))
     (diffuse_of (clear_hour equinox_noon)) (sw_of (clear_hour equinox_noon))
     (time (clear_hour equinox_noon)) (temp_of (clear_hour equinox_noon)) = Inr 950"
  using noon_power(1) [OF tm_yday_noons(1)] noon_power(1) [OF tm_yday_noons(2)]
  by (simp_all add: clear_hour_def direct_of_def diffuse_of_def sw_of_def temp_of_def
      noon_2024_def equinox_noon_def)

lemma analyze_loop_two_noons:
  "analyze_loop exact 0 0 180 0 two_noons (0, replicate 12 0, []) =
     Inr (1900, [0, 0, 1900, 0, 0, 0, 0, 0, 0, 0, 0, 0],
          [((2024, 3, 21), 950), ((2025, 3, 22), 950)])"
  by (simp add: two_noons_def analyze_step_def clear_hour_power list_add_def Let_def
      eval_nat_numeral)
     (simp add: clear_hour_def noon_2024_def equinox_noon_def date_of_def)

lemma groupby_two_dates:
  "groupby_sum [((2024, 3, 21) :: date, 1000), ((2025, 3, 22), 1000)] =
     [((2024, 3, 21), 1000), ((2025, 3, 22), 1000)]"
  by (simp add: groupby_sum_def less_eq_prod_def)


lemma daily_df_two_rows:
  "daily_df two_rows = [((2024, 3, 21), 1000, 1), ((2025, 3, 22), 1000, 1)]"
  by (simp add: daily_df_def two_rows_def groupby_two_dates)


lemma valid_months_two_noons: "valid_months two_noons"
  by (simp add: valid_months_def two_noons_def clear_hour_def noon_2024_def equinox_noon_def)

subsection \<open>The first maximum\<close>

lemma max_by_split_gen:
  assumes "\<forall>y\<in>set pre. key y < key b" "\<forall>z\<in>set mid. key z \<le> key b"
  shows "\<exists>ys zs. pre @ b # mid @ xs = ys @ max_by key b xs # zs \<and>
                 (\<forall>y\<in>set ys. key y < key (max_by key b xs)) \<and>
                 (\<forall>z\<in>set zs. key z \<le> key (max_by key b xs))"
  using assms
proof (induction xs arbitrary: pre b mid)
  case Nil
  show ?case
    by (rule exI [of _ pre], rule exI [of _ mid]) (simp add: Nil)
next
  case (Cons x xs)
  show ?case
  proof (cases "key x > key b")
    case True
    have pre': "\<forall>y\<in>set (pre @ b # mid). key y < key x"
    proof
      fix y assume "y \<in> set (pre @ b # mid)"
      then consider "y \<in> set pre" | "y = b" | "y \<in> set mid" by auto
      then show "key y < key x"
      proof cases
        case 1
        then have "key y < key b" using Cons.prems(1) by simp
        then show ?thesis using True by simp
      next
        case 2
        then show ?thesis using True by simp
      next
        case 3
        then have "key y \<le> key b" using Cons.prems(2) by simp
        then show ?thesis using True by simp
      qed
    qed
    have mid': "\<forall>z\<in>set []. key z \<le> key x" by simp
    have "max_by key b (x # xs) = max_by key x xs" using True by simp
    moreover have "pre @ b # mid @ x # xs = (pre @ b # mid) @ x # [] @ xs" by simp
    ultimately show ?thesis using Cons.IH [OF pre' mid'] by (simp only:)
  next
    case False
    have mid': "\<forall>z\<in>set (mid @ [x]). key z \<le> key b"
      using Cons.prems(2) False by auto
    have "max_by key b (x # xs) = max_by key b xs" using False by simp
    moreover have "pre @ b # mid @ x # xs = pre @ b # (mid @ [x]) @ xs" by simp
    ultimately show ?thesis using Cons.IH [OF Cons.prems(1) mid'] by (simp only:)
  qed
qed

lemma max_by_split:
  "\<exists>ys zs. b # xs = ys @ max_by key b xs # zs \<and>
           (\<forall>y\<in>set ys. key y < key (max_by key b xs)) \<and>
           (\<forall>z\<in>set zs. key z \<le> key (max_by key b xs))"
proof -
  have "\<forall>y\<in>set []. key y < key b" "\<forall>z\<in>set []. key z \<le> key b" by simp_all
  from max_by_split_gen [OF this, of xs] show ?thesis by (simp only: append_Nil)
qed

lemma max_by_mem: "max_by key b xs \<in> set (b # xs)"
proof -
  obtain ys zs where d: "b # xs = ys @ max_by key b xs # zs"
    using max_by_split [where key = key and b = b and xs = xs] by blast
  have "max_by key b xs \<in> set (ys @ max_by key b xs # zs)" by simp
  then show ?thesis unfolding d [symmetric] .
qed

lemma max_by_ge:
  assumes "x \<in> set (b # xs)"
  shows "key x \<le> key (max_by key b xs)"
proof -
  obtain ys zs where s: "b # xs = ys @ max_by key b xs # zs"
    "\<forall>y\<in>set ys. key y < key (max_by key b xs)"
    "\<forall>z\<in>set zs. key z \<le> key (max_by key b xs)"
    using max_by_split [where key = key and b = b and xs = xs] by blast
  from assms have "x \<in> set (ys @ max_by key b xs # zs)" unfolding s(1) .
  then consider "x \<in> set ys" | "x = max_by key b xs" | "x \<in> set zs" by auto
  then show ?thesis
  proof cases
    case 1
    then have "key x < key (max_by key b xs)" using s(2) by simp
    then show ?thesis by simp
  next
    case 2
    then show ?thesis by simp
  next
    case 3
    then show ?thesis using s(3) by simp
  qed
qed

lemma max_by_first:
  assumes "sorted_wrt lt (b # xs)" "x \<in> set (b # xs)" "key x = key (max_by key b xs)"
  shows "x = max_by key b xs \<or> lt (max_by key b xs) x"
proof -
  obtain ys zs where s: "b # xs = ys @ max_by key b xs # zs"
    "\<forall>y\<in>set ys. key y < key (max_by key b xs)"
    using max_by_split [where key = key and b = b and xs = xs] by blast
  from assms(2) have "x \<in> set (ys @ max_by key b xs # zs)" unfolding s(1) .
  then consider "x \<in> set ys" | "x = max_by key b xs" | "x \<in> set zs" by auto
  then show ?thesis
  proof cases
    case 1
    then have "key x < key (max_by key b xs)" using s(2) by simp
    then show ?thesis using assms(3) by simp
  next
    case 2
    then show ?thesis by simp
  next
    case 3
    from assms(1) have "sorted_wrt lt (ys @ max_by key b xs # zs)" unfolding s(1) .
    then have "\<forall>z\<in>set zs. lt (max_by key b xs) z"
      by (simp add: sorted_wrt_append)
    then show ?thesis using 3 by simp
  qed
qed

subsection \<open>Peak-day selection\<close>

lemma dict_add_keys:
  "map fst (dict_add k v kvs) =
     (if k \<in> set (map fst kvs) then map fst kvs else map fst kvs @ [k])"
  by (induction kvs) force+

lemma dict_add_sorted:
  fixes k :: "'k::order"
  assumes "sorted_wrt (<) (map fst kvs)" "\<forall>k'\<in>set (map fst kvs). k' \<le> k"
  shows "sorted_wrt (<) (map fst (dict_add k v kvs))"
proof (cases "k \<in> set (map fst kvs)")
  case True
  then show ?thesis using assms(1) by (simp only: dict_add_keys if_True)
next
  case False
  have "\<forall>k'\<in>set (map fst kvs). k' < k"
  proof
    fix k' assume m: "k' \<in> set (map fst kvs)"
    then have "k' \<le> k" using assms(2) by blast
    moreover have "k' \<noteq> k" using m False by blast
    ultimately show "k' < k" by (rule le_neq_trans)
  qed
  then have "sorted_wrt (<) (map fst kvs @ [k])"
    using assms(1) by (simp add: sorted_wrt_append)
  then show ?thesis using False by (simp only: dict_add_keys if_False)
qed

lemma dict_add_key_set:
  "set (map fst (dict_add k v kvs)) = insert k (set (map fst kvs))"
  by (auto simp: dict_add_keys)

lemma analyze_loop_keys:
  assumes "analyze_loop fl lat lon az tilt samples (t, m, d) = Inr (t', m', d')"
    and "sorted (map (\<lambda>w. date_of (time w)) samples)"
    and "sorted_wrt (<) (map fst d)"
    and "\<forall>k\<in>set (map fst d). \<forall>w\<in>set samples. k \<le> date_of (time w)"
  shows "sorted_wrt (<) (map fst d') \<and>
         set (map fst d') = set (map fst d) \<union> (\<lambda>w. date_of (time w)) ` set samples"
  using assms
proof (induction samples arbitrary: t m d)
  case Nil
  then show ?case by simp
next
  case (Cons w ws)
  from Cons.prems(1) obtain t1 m1 d1 where
    step: "analyze_step fl lat lon az tilt (t, m, d) w = Inr (t1, m1, d1)" and
    rest: "analyze_loop fl lat lon az tilt ws (t1, m1, d1) = Inr (t', m', d')"
    by (auto split: sum.splits)
  from analyze_step_Inr [OF step] obtain p where
    d1: "d1 = dict_add (date_of (time w)) p d" by blast
  have le_w: "\<forall>k\<in>set (map fst d). k \<le> date_of (time w)"
    using Cons.prems(4) by simp
  have s1: "sorted_wrt (<) (map fst d1)"
    unfolding d1 by (rule dict_add_sorted [OF Cons.prems(3) le_w])
  have keys1: "set (map fst d1) = insert (date_of (time w)) (set (map fst d))"
    unfolding d1 by (rule dict_add_key_set)
  have sorted_ws: "sorted (map (\<lambda>w. date_of (time w)) ws)"
    using Cons.prems(2) by simp
  have w_le: "\<forall>w'\<in>set ws. date_of (time w) \<le> date_of (time w')"
    using Cons.prems(2) by simp
  have le1: "\<forall>k\<in>set (map fst d1). \<forall>w'\<in>set ws. k \<le> date_of (time w')"
    unfolding keys1 using w_le Cons.prems(4) by simp
  from Cons.IH [OF rest sorted_ws s1 le1] show ?case
    unfolding keys1 by auto
qed

lemma dict_get_mem:
  assumes "distinct (map fst d)" "(k, v) \<in> set d"
  shows "dict_get d k = v"
  using assms by (simp add: dict_get_def)

lemma idxmax_first:
  assumes "xs \<noteq> []"
  shows "\<exists>i. idxmax xs = Inr i \<and> i < length xs \<and>
             (\<forall>j<length xs. xs ! j \<le> xs ! i \<and> (xs ! j = xs ! i \<longrightarrow> i \<le> j))"
proof -
  let ?key = "\<lambda>i. xs ! i"
  let ?i = "max_by ?key 0 [1..<length xs]"
  have n: "0 < length xs" using assms by simp
  have upt: "0 # [1..<length xs] = [0..<length xs]"
    using n by (simp add: upt_conv_Cons)
  have mem: "?i \<in> set (0 # [1..<length xs])"
    by (rule max_by_mem)
  then have lt: "?i < length xs" unfolding upt by simp
  have srt: "sorted_wrt (<) (0 # [1..<length xs])"
    unfolding upt by simp
  have "\<forall>j<length xs. xs ! j \<le> xs ! ?i \<and> (xs ! j = xs ! ?i \<longrightarrow> ?i \<le> j)"
  proof (intro allI impI conjI)
    fix j assume j: "j < length xs"
    then have jm: "j \<in> set (0 # [1..<length xs])" unfolding upt by simp
    show "xs ! j \<le> xs ! ?i"
      using max_by_ge [where key = ?key and x = j and b = 0 and xs = "[1..<length xs]", OF jm] .
    assume eq: "xs ! j = xs ! ?i"
    have "j = ?i \<or> ?i < j"
      using max_by_first [where key = ?key and lt = "(<)" and x = j and b = 0
          and xs = "[1..<length xs]", OF srt jm eq] .
    then show "?i \<le> j" by auto
  qed
  moreover have "idxmax xs = Inr ?i" using assms by (simp add: idxmax_def)
  ultimately show ?thesis using lt by blast
qed

lemma script_peak_day:
  assumes "valid_months samples" "chronological samples" "samples \<noteq> []"
    and dm: "all_in_domain fl lat samples"
  shows "\<exists>total monthly daily d e.
           analyze_last_year_production fl lat lon az tilt samples =
             Inr (total, monthly, daily, d, e) \<and>
           (d, e) \<in> set daily \<and>
           (\<forall>(d', e')\<in>set daily. e' \<le> e \<and> (e' = e \<longrightarrow> d \<le> d'))"
proof -
  have l: "length (replicate 12 (0::real)) = 12" by simp
  obtain acc where
    "analyze_loop fl lat lon az tilt samples (0, replicate 12 0, []) = Inr acc"
    using analyze_loop_returns [OF assms(1) dm l] by blast
  then obtain total monthly daily where
    r: "analyze_loop fl lat lon az tilt samples (0, replicate 12 0, []) =
          Inr (total, monthly, daily)"
    by (cases acc) simp
  have chron: "sorted (map (\<lambda>w. date_of (time w)) samples)"
    using assms(2) by (simp add: chronological_def)
  have "sorted_wrt (<) (map fst daily) \<and>
        set (map fst daily) =
          set (map fst ([] :: (date \<times> real) list)) \<union>
          (\<lambda>w. date_of (time w)) ` set samples"
    using analyze_loop_keys [OF r chron] by simp
  then have srt: "sorted_wrt (<) (map fst daily)"
    and keys: "set (map fst daily) = (\<lambda>w. date_of (time w)) ` set samples"
    by simp_all
  have dist: "distinct (map fst daily)"
    using srt by (simp add: strict_sorted_iff)
  have "set (map fst daily) \<noteq> {}" using keys assms(3) by simp
  then obtain k0 ks where ks: "map fst daily = k0 # ks"
    by (cases "map fst daily") auto
  let ?key = "dict_get daily"
  let ?d = "max_by ?key k0 ks"
  have srt': "sorted_wrt (<) (k0 # ks)" using srt unfolding ks .
  have mem: "?d \<in> set (k0 # ks)" by (rule max_by_mem)
  then have "?d \<in> fst ` set daily" unfolding ks [symmetric] by simp
  then obtain e where e: "(?d, e) \<in> set daily" by auto
  have ge: "?key ?d = e" by (rule dict_get_mem [OF dist e])
  have all: "\<forall>(d', e')\<in>set daily. e' \<le> e \<and> (e' = e \<longrightarrow> ?d \<le> d')"
  proof (intro ballI, clarify)
    fix d' e' assume m: "(d', e') \<in> set daily"
    then have "d' \<in> set (map fst daily)" by force
    then have dm: "d' \<in> set (k0 # ks)" unfolding ks .
    have g': "?key d' = e'" by (rule dict_get_mem [OF dist m])
    have le: "?key d' \<le> ?key ?d"
      using max_by_ge [where key = ?key and x = d' and b = k0 and xs = ks, OF dm] .
    have first: "e' = e \<longrightarrow> ?d \<le> d'"
    proof
      assume "e' = e"
      then have eq: "?key d' = ?key ?d" using g' ge by simp
      have "d' = ?d \<or> ?d < d'"
        using max_by_first [where key = ?key and lt = "(<)" and x = d' and b = k0
            and xs = ks, OF srt' dm eq] .
      then show "?d \<le> d'" by auto
    qed
    from le first show "e' \<le> e \<and> (e' = e \<longrightarrow> ?d \<le> d')"
      unfolding g' ge by simp
  qed
  have "analyze_last_year_production fl lat lon az tilt samples =
          Inr (total, monthly, daily, ?d, e)"
    by (simp add: analyze_last_year_production_def r py_max_def ks ge)
  with e all show ?thesis by blast
qed

lemma daily_df_keys: "map fst (daily_df df) = sort (remdups (map Date df))"
  by (simp add: daily_df_def groupby_sum_def comp_def)

lemma dashboard_peak_day:
  assumes "df \<noteq> []"
  shows "\<exists>d wh kwh.
           peak_day df = Inr (d, wh, kwh) \<and> (d, wh, kwh) \<in> set (daily_df df) \<and>
           (\<forall>(d', wh', kwh')\<in>set (daily_df df). kwh' \<le> kwh \<and> (kwh' = kwh \<longrightarrow> d \<le> d'))"
proof -
  let ?rows = "daily_df df"
  let ?xs = "map (\<lambda>(d, wh, kwh). kwh) ?rows"
  have srt: "sorted (map fst ?rows)" by (simp add: daily_df_keys)
  have "set (map fst ?rows) = Date ` set df" by (simp add: daily_df_keys)
  then have "set (map fst ?rows) \<noteq> {}" using assms by simp
  then have ne: "?rows \<noteq> []" by auto
  then have "?xs \<noteq> []" by simp
  from idxmax_first [OF this] obtain i where
    i: "idxmax ?xs = Inr i" "i < length ?xs"
       "\<forall>j<length ?xs. ?xs ! j \<le> ?xs ! i \<and> (?xs ! j = ?xs ! i \<longrightarrow> i \<le> j)"
    by blast
  have il: "i < length ?rows" using i(2) by simp
  obtain d wh kwh where row: "?rows ! i = (d, wh, kwh)" by (cases "?rows ! i") auto
  have xi: "?xs ! i = kwh" using il row by simp
  have pk: "peak_day df = Inr (d, wh, kwh)"
    by (simp add: peak_day_def i(1) row)
  have mem: "(d, wh, kwh) \<in> set ?rows" using nth_mem [OF il] row by simp
  have all: "\<forall>(d', wh', kwh')\<in>set ?rows. kwh' \<le> kwh \<and> (kwh' = kwh \<longrightarrow> d \<le> d')"
  proof (intro ballI, clarify)
    fix d' wh' kwh' assume "(d', wh', kwh') \<in> set ?rows"
    then obtain j where j: "j < length ?rows" "?rows ! j = (d', wh', kwh')"
      by (auto simp: in_set_conv_nth)
    have xj: "?xs ! j = kwh'" using j by simp
    from i(3) j(1) have c: "?xs ! j \<le> ?xs ! i \<and> (?xs ! j = ?xs ! i \<longrightarrow> i \<le> j)" by simp
    have "kwh' = kwh \<longrightarrow> d \<le> d'"
    proof
      assume "kwh' = kwh"
      then have ij: "i \<le> j" using c xi xj by simp
      have jl: "j < length (map fst ?rows)" using j(1) by simp
      have "map fst ?rows ! i \<le> map fst ?rows ! j"
        by (rule sorted_nth_mono [OF srt ij jl])
      then show "d \<le> d'" using il j row by simp
    qed
    then show "kwh' \<le> kwh \<and> (kwh' = kwh \<longrightarrow> d \<le> d')" using c xi xj by simp
  qed
  from pk mem all show ?thesis by blast
qed

lemma chronological_two_noons: "chronological two_noons"
  by (simp add: chronological_def two_noons_def clear_hour_def noon_2024_def
      equinox_noon_def date_of_def less_eq_prod_def)

lemma analyze_two_noons:
  "analyze_last_year_production exact 0 0 180 0 two_noons =
     Inr (1900, [0, 0, 1900, 0, 0, 0, 0, 0, 0, 0, 0, 0],
          [((2024, 3, 21), 950), ((2025, 3, 22), 950)], (2024, 3, 21), 950)"
  by (simp add: analyze_last_year_production_def analyze_loop_two_noons py_max_def
      dict_get_def)

lemma peak_day_two_rows: "peak_day two_rows = Inr ((2024, 3, 21), 1000, 1)"
  by (simp add: peak_day_def daily_df_two_rows idxmax_def)

subsection \<open>Claims about the aggregation\<close>



text \<open>
  C8. Peak-day selection returns a date whose daily total is maximal, and among the
  dates that tie for the maximum the earliest. In the script the daily totals are kept
  in first-occurrence order, which is the order of the dates for a chronological
  series; the dashboard sorts the dates when it groups. Both raise on an empty series.
  The script's statement holds under every rounding at which the sun position is
  defined at each sample, hence in exact arithmetic.
\<close>

theorem peak_day_is_earliest_maximum:
  "valid_months samples \<Longrightarrow> chronological samples \<Longrightarrow> samples \<noteq> [] \<Longrightarrow> df \<noteq> [] \<Longrightarrow>
     (all_in_domain fl lat samples \<longrightarrow>
      (\<exists>total monthly daily d e.
        analyze_last_year_production fl lat lon az tilt samples =
          Inr (total, monthly, daily, d, e) \<and>
        (d, e) \<in> set daily \<and>
        (\<forall>(d', e')\<in>set daily. e' \<le> e \<and> (e' = e \<longrightarrow> d \<le> d')))) \<and>
     (\<exists>total monthly daily d e.
        analyze_last_year_production exact lat lon az tilt samples =
          Inr (total, monthly, daily, d, e) \<and>
        (d, e) \<in> set daily \<and>
        (\<forall>(d', e')\<in>set daily. e' \<le> e \<and> (e' = e \<longrightarrow> d \<le> d'))) \<and>
     (\<exists>d wh kwh.
        peak_day df = Inr (d, wh, kwh) \<and> (d, wh, kwh) \<in> set (daily_df df) \<and>
        (\<forall>(d', wh', kwh')\<in>set (daily_df df). kwh' \<le> kwh \<and> (kwh' = kwh \<longrightarrow> d \<le> d')))"
proof (intro conjI impI)
  assume a: "valid_months samples" "chronological samples" "samples \<noteq> []" and d: "df \<noteq> []"
  show "\<exists>total monthly daily d e.
        analyze_last_year_production exact lat lon az tilt samples =
          Inr (total, monthly, daily, d, e) \<and>
        (d, e) \<in> set daily \<and>
        (\<forall>(d', e')\<in>set daily. e' \<le> e \<and> (e' = e \<longrightarrow> d \<le> d'))"
    by (rule script_peak_day [OF a all_in_domain_exact])
  show "\<exists>d wh kwh.
        peak_day df = Inr (d, wh, kwh) \<and> (d, wh, kwh) \<in> set (daily_df df) \<and>
        (\<forall>(d', wh', kwh')\<in>set (daily_df df). kwh' \<le> kwh \<and> (kwh' = kwh \<longrightarrow> d \<le> d'))"
    by (rule dashboard_peak_day [OF d])
  assume dm: "all_in_domain fl lat samples"
  show "\<exists>total monthly daily d e.
        analyze_last_year_production fl lat lon az tilt samples =
          Inr (total, monthly, daily, d, e) \<and>
        (d, e) \<in> set daily \<and>
        (\<forall>(d', e')\<in>set daily. e' \<le> e \<and> (e' = e \<longrightarrow> d \<le> d'))"
    by (rule script_peak_day [OF a dm])
qed

theorem peak_day_is_earliest_maximum_witness:
  "valid_months two_noons \<and> chronological two_noons \<and> two_noons \<noteq> [] \<and> two_rows \<noteq> [] \<and>
   all_in_domain exact 0 two_noons \<and>
   analyze_last_year_production exact 0 0 180 0 two_noons =
     Inr (1900, [0, 0, 1900, 0, 0, 0, 0, 0, 0, 0, 0, 0],
          [((2024, 3, 21), 950), ((2025, 3, 22), 950)], (2024, 3, 21), 950) \<and>
   peak_day two_rows = Inr ((2024, 3, 21), 1000, 1)"
proof -
  have ne: "two_noons \<noteq> []" "two_rows \<noteq> []"
    by (simp_all add: two_noons_def two_rows_def)
  note peak_day_is_earliest_maximum [OF valid_months_two_noons chronological_two_noons ne,
      where fl = exact and lat = 0 and lon = 0 and az = 180 and tilt = 0]
  then show ?thesis
    by (simp add: valid_months_two_noons chronological_two_noons ne all_in_domain_exact
        analyze_two_noons peak_day_two_rows)
qed

end
